theory Spec2Isabelle
  imports Main
begin

section \<open>The station of \<open>Lab3 - Mutex/caltrain.c\<close>\<close>

subsection \<open>Threads, the station record and C integers\<close>

text \<open>
  One controller thread issues \<open>station_load_train\<close>; passenger threads are numbered.
\<close>

datatype thread = Controller | Passenger nat

text \<open>
  \<open>struct station\<close> of \<open>caltrain.h\<close>. The four counters are C \<open>int\<close>s, read as
  integers; the mutex is the thread that holds it, if any; a condition variable is the
  set of threads suspended on it.
\<close>

record station =
  waiting :: int
  seats_available :: int
  people_to_sit :: int
  boarding :: int
  lock :: "thread option"
  train_arrived :: "thread set"
  all_boarded :: "thread set"

text \<open>
  The range of a 32-bit \<open>int\<close>. \<open>x++\<close> at \<open>INT_MAX\<close> and \<open>x--\<close> at \<open>INT_MIN\<close> are
  undefined in C: an execution stops there with the fault \<open>Overflow\<close>. \<open>Blocked\<close> is
  the outcome of scheduling a thread that cannot take a step: it waits for the mutex,
  is suspended on a condition, or is outside any call. \<open>NotAnInt\<close> refuses a call whose
  argument is no \<open>int\<close>.
\<close>

definition INT_MAX :: int where
  "INT_MAX = 2147483647"

definition INT_MIN :: int where
  "INT_MIN = - 2147483648"

datatype fault = Blocked | Overflow | NotAnInt

subsection \<open>Program points\<close>

text \<open>
  A thread's program point names the statement of \<open>caltrain.c\<close> it executes next.
  The controller is outside any call (\<open>C_idle\<close>) or inside \<open>station_load_train\<close>,
  whose argument \<open>count\<close> is kept up to its last use in line 35.
\<close>

datatype ctl_pc =
    C_idle
  | L_lock int             \<comment> \<open>line 26: \<open>pthread_mutex_lock\<close>\<close>
  | L_set_seats int        \<comment> \<open>line 29\<close>
  | L_set_quota int        \<comment> \<open>line 35\<close>
  | L_broadcast            \<comment> \<open>line 38\<close>
  | L_test                 \<comment> \<open>line 41: the loop test\<close>
  | L_cond_wait            \<comment> \<open>line 43: entering \<open>pthread_cond_wait\<close>\<close>
  | L_suspended            \<comment> \<open>line 43: inside \<open>pthread_cond_wait\<close>, mutex released\<close>
  | L_reset_boarding       \<comment> \<open>line 47\<close>
  | L_reset_seats          \<comment> \<open>line 48\<close>
  | L_reset_quota          \<comment> \<open>line 49\<close>
  | L_unlock               \<comment> \<open>line 51\<close>

text \<open>
  A passenger thread is outside any call (\<open>P_idle\<close>), inside
  \<open>station_wait_for_train\<close> (the points \<open>W_\<close>) or inside \<open>station_on_board\<close> (the
  points \<open>B_\<close>).
\<close>

datatype pas_pc =
    P_idle
  | W_lock                 \<comment> \<open>line 56\<close>
  | W_inc_waiting          \<comment> \<open>line 59\<close>
  | W_test                 \<comment> \<open>line 62: the loop test\<close>
  | W_cond_wait            \<comment> \<open>line 65: entering \<open>pthread_cond_wait\<close>\<close>
  | W_suspended            \<comment> \<open>line 65: inside \<open>pthread_cond_wait\<close>, mutex released\<close>
  | W_dec_seats            \<comment> \<open>line 72\<close>
  | W_dec_waiting          \<comment> \<open>line 73\<close>
  | W_unlock               \<comment> \<open>line 75\<close>
  | B_lock                 \<comment> \<open>line 80\<close>
  | B_inc_boarding         \<comment> \<open>line 83\<close>
  | B_test                 \<comment> \<open>line 86\<close>
  | B_broadcast            \<comment> \<open>line 89\<close>
  | B_unlock               \<comment> \<open>line 92\<close>

record config =
  st :: station
  ctl :: ctl_pc
  pas :: "nat \<Rightarrow> pas_pc"

subsection \<open>The four functions, statement by statement\<close>

text \<open>\<open>station_init\<close>, lines 10 to 22: every field is overwritten.\<close>

definition station_init :: "station \<Rightarrow> station" where
  "station_init s =
     s\<lparr>waiting := 0, seats_available := 0, people_to_sit := 0, boarding := 0,
       lock := None, train_arrived := {}, all_boarded := {}\<rparr>"

text \<open>The station after \<open>station_init\<close>, every thread outside any call.\<close>

definition initial :: "station \<Rightarrow> config" where
  "initial s0 = \<lparr>st = station_init s0, ctl = C_idle, pas = (\<lambda>t. P_idle)\<rparr>"

text \<open>
  \<open>station_load_train\<close>, lines 24 to 52: the next statement of the controller.
  \<open>pthread_mutex_lock\<close> needs the mutex free. \<open>pthread_cond_wait\<close> releases the mutex
  and suspends the thread; it returns, holding the mutex again, once the thread has
  been woken and the mutex is free. \<open>pthread_cond_broadcast\<close> wakes every thread
  suspended on the condition.
\<close>

fun station_load_train :: "ctl_pc \<Rightarrow> config \<Rightarrow> fault + config" where
  "station_load_train C_idle c = Inl Blocked"
| "station_load_train (L_lock n) c =
     (if lock (st c) = None
      then Inr (c\<lparr>st := (st c)\<lparr>lock := Some Controller\<rparr>, ctl := L_set_seats n\<rparr>)
      else Inl Blocked)"
| "station_load_train (L_set_seats n) c =
     Inr (c\<lparr>st := (st c)\<lparr>seats_available := n\<rparr>, ctl := L_set_quota n\<rparr>)"
| "station_load_train (L_set_quota n) c =
     Inr (c\<lparr>st := (st c)\<lparr>people_to_sit :=
                 (if waiting (st c) < n then waiting (st c) else n)\<rparr>,
            ctl := L_broadcast\<rparr>)"
| "station_load_train L_broadcast c =
     Inr (c\<lparr>st := (st c)\<lparr>train_arrived := {}\<rparr>, ctl := L_test\<rparr>)"
| "station_load_train L_test c =
     (if boarding (st c) < people_to_sit (st c)
      then Inr (c\<lparr>ctl := L_cond_wait\<rparr>)
      else Inr (c\<lparr>ctl := L_reset_boarding\<rparr>))"
| "station_load_train L_cond_wait c =
     Inr (c\<lparr>st := (st c)\<lparr>all_boarded := insert Controller (all_boarded (st c)),
                         lock := None\<rparr>,
            ctl := L_suspended\<rparr>)"
| "station_load_train L_suspended c =
     (if Controller \<notin> all_boarded (st c) \<and> lock (st c) = None
      then Inr (c\<lparr>st := (st c)\<lparr>lock := Some Controller\<rparr>, ctl := L_test\<rparr>)
      else Inl Blocked)"
| "station_load_train L_reset_boarding c =
     Inr (c\<lparr>st := (st c)\<lparr>boarding := 0\<rparr>, ctl := L_reset_seats\<rparr>)"
| "station_load_train L_reset_seats c =
     Inr (c\<lparr>st := (st c)\<lparr>seats_available := 0\<rparr>, ctl := L_reset_quota\<rparr>)"
| "station_load_train L_reset_quota c =
     Inr (c\<lparr>st := (st c)\<lparr>people_to_sit := 0\<rparr>, ctl := L_unlock\<rparr>)"
| "station_load_train L_unlock c =
     Inr (c\<lparr>st := (st c)\<lparr>lock := None\<rparr>, ctl := C_idle\<rparr>)"

text \<open>\<open>station_wait_for_train\<close>, lines 54 to 76: the next statement of passenger \<open>t\<close>.\<close>

fun station_wait_for_train :: "pas_pc \<Rightarrow> nat \<Rightarrow> config \<Rightarrow> fault + config" where
  "station_wait_for_train W_lock t c =
     (if lock (st c) = None
      then Inr (c\<lparr>st := (st c)\<lparr>lock := Some (Passenger t)\<rparr>,
                 pas := (pas c)(t := W_inc_waiting)\<rparr>)
      else Inl Blocked)"
| "station_wait_for_train W_inc_waiting t c =
     (if waiting (st c) < INT_MAX
      then Inr (c\<lparr>st := (st c)\<lparr>waiting := waiting (st c) + 1\<rparr>,
                 pas := (pas c)(t := W_test)\<rparr>)
      else Inl Overflow)"
| "station_wait_for_train W_test t c =
     (if seats_available (st c) = 0
      then Inr (c\<lparr>pas := (pas c)(t := W_cond_wait)\<rparr>)
      else Inr (c\<lparr>pas := (pas c)(t := W_dec_seats)\<rparr>))"
| "station_wait_for_train W_cond_wait t c =
     Inr (c\<lparr>st := (st c)\<lparr>train_arrived := insert (Passenger t) (train_arrived (st c)),
                         lock := None\<rparr>,
            pas := (pas c)(t := W_suspended)\<rparr>)"
| "station_wait_for_train W_suspended t c =
     (if Passenger t \<notin> train_arrived (st c) \<and> lock (st c) = None
      then Inr (c\<lparr>st := (st c)\<lparr>lock := Some (Passenger t)\<rparr>,
                 pas := (pas c)(t := W_test)\<rparr>)
      else Inl Blocked)"
| "station_wait_for_train W_dec_seats t c =
     (if INT_MIN < seats_available (st c)
      then Inr (c\<lparr>st := (st c)\<lparr>seats_available := seats_available (st c) - 1\<rparr>,
                 pas := (pas c)(t := W_dec_waiting)\<rparr>)
      else Inl Overflow)"
| "station_wait_for_train W_dec_waiting t c =
     (if INT_MIN < waiting (st c)
      then Inr (c\<lparr>st := (st c)\<lparr>waiting := waiting (st c) - 1\<rparr>,
                 pas := (pas c)(t := W_unlock)\<rparr>)
      else Inl Overflow)"
| "station_wait_for_train W_unlock t c =
     Inr (c\<lparr>st := (st c)\<lparr>lock := None\<rparr>, pas := (pas c)(t := P_idle)\<rparr>)"
| "station_wait_for_train _ t c = Inl Blocked"

text \<open>\<open>station_on_board\<close>, lines 78 to 93: the next statement of passenger \<open>t\<close>.\<close>

fun station_on_board :: "pas_pc \<Rightarrow> nat \<Rightarrow> config \<Rightarrow> fault + config" where
  "station_on_board B_lock t c =
     (if lock (st c) = None
      then Inr (c\<lparr>st := (st c)\<lparr>lock := Some (Passenger t)\<rparr>,
                 pas := (pas c)(t := B_inc_boarding)\<rparr>)
      else Inl Blocked)"
| "station_on_board B_inc_boarding t c =
     (if boarding (st c) < INT_MAX
      then Inr (c\<lparr>st := (st c)\<lparr>boarding := boarding (st c) + 1\<rparr>,
                 pas := (pas c)(t := B_test)\<rparr>)
      else Inl Overflow)"
| "station_on_board B_test t c =
     (if boarding (st c) = people_to_sit (st c)
      then Inr (c\<lparr>pas := (pas c)(t := B_broadcast)\<rparr>)
      else Inr (c\<lparr>pas := (pas c)(t := B_unlock)\<rparr>))"
| "station_on_board B_broadcast t c =
     Inr (c\<lparr>st := (st c)\<lparr>all_boarded := {}\<rparr>, pas := (pas c)(t := B_unlock)\<rparr>)"
| "station_on_board B_unlock t c =
     Inr (c\<lparr>st := (st c)\<lparr>lock := None\<rparr>, pas := (pas c)(t := P_idle)\<rparr>)"
| "station_on_board _ t c = Inl Blocked"

subsection \<open>Interleavings\<close>

text \<open>
  A schedule is a list of events. \<open>Load n\<close>, \<open>Wait t\<close> and \<open>Board t\<close> are calls: the
  controller, outside any call, calls \<open>station_load_train\<close> with \<open>count = n\<close>;
  passenger \<open>t\<close>, outside any call, calls \<open>station_wait_for_train\<close> or
  \<open>station_on_board\<close>. \<open>Ctl\<close> and \<open>Pas t\<close> let the controller or passenger \<open>t\<close>
  execute the next statement of its call. \<open>Spurious th\<close> wakes thread \<open>th\<close> from
  \<open>pthread_cond_wait\<close> without a broadcast, which POSIX allows. Passengers may call the
  two functions in any order and any number of times.
\<close>

datatype event = Load int | Wait nat | Board nat | Ctl | Pas nat | Spurious thread

fun in_on_board :: "pas_pc \<Rightarrow> bool" where
  "in_on_board B_lock = True"
| "in_on_board B_inc_boarding = True"
| "in_on_board B_test = True"
| "in_on_board B_broadcast = True"
| "in_on_board B_unlock = True"
| "in_on_board _ = False"

fun step :: "event \<Rightarrow> config \<Rightarrow> fault + config" where
  "step (Load n) c =
     (if ctl c = C_idle
      then (if INT_MIN \<le> n \<and> n \<le> INT_MAX then Inr (c\<lparr>ctl := L_lock n\<rparr>)
            else Inl NotAnInt)
      else Inl Blocked)"
| "step (Wait t) c =
     (if pas c t = P_idle then Inr (c\<lparr>pas := (pas c)(t := W_lock)\<rparr>) else Inl Blocked)"
| "step (Board t) c =
     (if pas c t = P_idle then Inr (c\<lparr>pas := (pas c)(t := B_lock)\<rparr>) else Inl Blocked)"
| "step Ctl c = station_load_train (ctl c) c"
| "step (Pas t) c =
     (if in_on_board (pas c t) then station_on_board (pas c t) t c
      else station_wait_for_train (pas c t) t c)"
| "step (Spurious th) c =
     Inr (c\<lparr>st := (st c)\<lparr>train_arrived := train_arrived (st c) - {th},
                         all_boarded := all_boarded (st c) - {th}\<rparr>\<rparr>)"

text \<open>
  \<open>run\<close> executes a schedule and stops at the first event that cannot be executed.
  \<open>visited\<close> lists the configurations it passes through, the first one included.
\<close>

fun run :: "event list \<Rightarrow> config \<Rightarrow> fault + config" where
  "run [] c = Inr c"
| "run (e # es) c = (case step e c of Inl f \<Rightarrow> Inl f | Inr c' \<Rightarrow> run es c')"

fun visited :: "event list \<Rightarrow> config \<Rightarrow> config list" where
  "visited [] c = [c]"
| "visited (e # es) c = c # (case step e c of Inl f \<Rightarrow> [] | Inr c' \<Rightarrow> visited es c')"

text \<open>
  What an execution shows from outside: the calls of \<open>station_load_train\<close>, the quota
  each call computes in line 35, and their returns (the \<open>pthread_mutex_unlock\<close> of
  line 51); the returns of \<open>station_wait_for_train\<close> (line 75) and of
  \<open>station_on_board\<close> (line 92). \<open>observe e c c'\<close> is what event \<open>e\<close> shows when it
  takes \<open>c\<close> to \<open>c'\<close>.
\<close>

datatype obs = Called int | Quota int | Returned | Seated nat | Boarded nat

fun is_set_quota :: "ctl_pc \<Rightarrow> bool" where
  "is_set_quota (L_set_quota n) = True"
| "is_set_quota _ = False"

fun observe :: "event \<Rightarrow> config \<Rightarrow> config \<Rightarrow> obs list" where
  "observe (Load n) c c' = [Called n]"
| "observe Ctl c c' =
     (if is_set_quota (ctl c) then [Quota (people_to_sit (st c'))]
      else if ctl c = L_unlock then [Returned] else [])"
| "observe (Pas t) c c' =
     (if pas c t = W_unlock then [Seated t]
      else if pas c t = B_unlock then [Boarded t] else [])"
| "observe _ c c' = []"

fun history :: "event list \<Rightarrow> config \<Rightarrow> obs list" where
  "history [] c = []"
| "history (e # es) c =
     (case step e c of Inl f \<Rightarrow> [] | Inr c' \<Rightarrow> observe e c c' @ history es c')"

subsection \<open>Who holds the mutex\<close>

text \<open>
  The program points between a thread's \<open>pthread_mutex_lock\<close> and its
  \<open>pthread_mutex_unlock\<close>, the time suspended in \<open>pthread_cond_wait\<close> excepted.
\<close>

fun holds_lock_ctl :: "ctl_pc \<Rightarrow> bool" where
  "holds_lock_ctl C_idle = False"
| "holds_lock_ctl (L_lock n) = False"
| "holds_lock_ctl L_suspended = False"
| "holds_lock_ctl _ = True"

fun holds_lock_pas :: "pas_pc \<Rightarrow> bool" where
  "holds_lock_pas P_idle = False"
| "holds_lock_pas W_lock = False"
| "holds_lock_pas W_suspended = False"
| "holds_lock_pas B_lock = False"
| "holds_lock_pas _ = True"

text \<open>The event that lets a thread execute its next statement.\<close>

fun runs :: "thread \<Rightarrow> event" where
  "runs Controller = Ctl"
| "runs (Passenger t) = Pas t"

definition mutex_inv :: "config \<Rightarrow> bool" where
  "mutex_inv c \<longleftrightarrow>
     (holds_lock_ctl (ctl c) \<longleftrightarrow> lock (st c) = Some Controller) \<and>
     (\<forall>t. holds_lock_pas (pas c t) \<longleftrightarrow> lock (st c) = Some (Passenger t))"

text \<open>The argument of the call of \<open>station_load_train\<close> under way, while it is still used.\<close>

fun pending_count :: "ctl_pc \<Rightarrow> int" where
  "pending_count (L_lock n) = n"
| "pending_count (L_set_seats n) = n"
| "pending_count (L_set_quota n) = n"
| "pending_count _ = 0"

fun nonneg_count :: "event \<Rightarrow> bool" where
  "nonneg_count (Load n) = (0 \<le> n)"
| "nonneg_count _ = True"

fun is_load :: "event \<Rightarrow> bool" where
  "is_load (Load n) = True"
| "is_load _ = False"

definition seats_inv :: "config \<Rightarrow> bool" where
  "seats_inv c \<longleftrightarrow>
     0 \<le> seats_available (st c) \<and> 0 \<le> pending_count (ctl c) \<and>
     (\<forall>t. pas c t = W_dec_seats \<longrightarrow> 0 < seats_available (st c))"

text \<open>
  The program points of \<open>station_load_train\<close> after the assignment of line 35 and up
  to the reset of line 49: there \<open>people_to_sit\<close> is the quota of the train in the
  station. \<open>kept q\<close> holds from line 38 to the end of the call while that quota is \<open>q\<close>.
\<close>

fun quota_in_force :: "ctl_pc \<Rightarrow> bool" where
  "quota_in_force L_broadcast = True"
| "quota_in_force L_test = True"
| "quota_in_force L_cond_wait = True"
| "quota_in_force L_suspended = True"
| "quota_in_force L_reset_boarding = True"
| "quota_in_force L_reset_seats = True"
| "quota_in_force L_reset_quota = True"
| "quota_in_force _ = False"

definition kept :: "int \<Rightarrow> config \<Rightarrow> bool" where
  "kept q c \<longleftrightarrow>
     (quota_in_force (ctl c) \<and> people_to_sit (st c) = q) \<or> ctl c = L_unlock \<or> ctl c = C_idle"

text \<open>
  Where \<open>seats_available\<close> and \<open>people_to_sit\<close> are 0 as far as the controller is
  concerned: outside a call and up to the assignments of lines 29 and 35, and again
  after the resets of lines 48 and 49.
\<close>

fun seats_zero_at :: "ctl_pc \<Rightarrow> bool" where
  "seats_zero_at C_idle = True"
| "seats_zero_at (L_lock n) = True"
| "seats_zero_at (L_set_seats n) = True"
| "seats_zero_at L_reset_quota = True"
| "seats_zero_at L_unlock = True"
| "seats_zero_at _ = False"

fun quota_zero_at :: "ctl_pc \<Rightarrow> bool" where
  "quota_zero_at C_idle = True"
| "quota_zero_at (L_lock n) = True"
| "quota_zero_at (L_set_seats n) = True"
| "quota_zero_at (L_set_quota n) = True"
| "quota_zero_at L_unlock = True"
| "quota_zero_at _ = False"

definition rest_inv :: "config \<Rightarrow> bool" where
  "rest_inv c \<longleftrightarrow>
     (seats_zero_at (ctl c) \<longrightarrow> seats_available (st c) = 0) \<and>
     (quota_zero_at (ctl c) \<longrightarrow> people_to_sit (st c) = 0) \<and>
     (\<forall>t. pas c t = W_dec_seats \<longrightarrow> seats_available (st c) \<noteq> 0)"

subsection \<open>Concrete executions\<close>

text \<open>An uninitialised station: \<open>station_init\<close> overwrites all of it.\<close>

definition garbage :: station where
  "garbage = \<lparr>waiting = 5, seats_available = - 7, people_to_sit = 1, boarding = 3,
     lock = Some Controller, train_arrived = {Passenger 4}, all_boarded = {}\<rparr>"

text \<open>
  A configuration no schedule reaches from \<open>initial\<close>: the controller is about to take
  the mutex for \<open>station_load_train(4)\<close>, nobody waits, and \<open>people_to_sit\<close> and
  \<open>boarding\<close> hold values left behind.
\<close>

definition stale_platform :: config where
  "stale_platform =
     \<lparr>st = \<lparr>waiting = 0, seats_available = 0, people_to_sit = 3, boarding = 2,
             lock = None, train_arrived = {}, all_boarded = {}\<rparr>,
      ctl = L_lock 4, pas = (\<lambda>t. P_idle)\<rparr>"

text \<open>
  Pieces of schedules, each a thread running alone.
  \<open>arrive t\<close>: passenger \<open>t\<close> calls \<open>station_wait_for_train\<close>, counts itself in
  \<open>waiting\<close>, finds no seat and suspends (lines 56, 59, 62, 65).
  \<open>announce n\<close>: the controller calls \<open>station_load_train(n)\<close> and suspends
  (lines 26, 29, 35, 38, 41, 43).
  \<open>claim_woken t\<close>: passenger \<open>t\<close>, woken, takes a seat and returns
  (lines 65, 62, 72, 73, 75).
  \<open>claim_late t\<close>: passenger \<open>t\<close> calls \<open>station_wait_for_train\<close>, finds a seat at once
  and returns (lines 56, 59, 62, 72, 73, 75).
  \<open>board_last t\<close>: passenger \<open>t\<close> calls \<open>station_on_board\<close>, meets the quota and
  broadcasts (lines 80, 83, 86, 89, 92).
  \<open>board_quiet t\<close>: passenger \<open>t\<close> calls \<open>station_on_board\<close> and does not broadcast
  (lines 80, 83, 86, 92).
  \<open>depart\<close>: the controller, woken, leaves its loop, resets and returns
  (lines 43, 41, 47, 48, 49, 51).
  \<open>pass_through n\<close>: the controller calls \<open>station_load_train(n)\<close> and returns without
  suspending (lines 26, 29, 35, 38, 41, 47, 48, 49, 51).
\<close>

definition arrive :: "nat \<Rightarrow> event list" where
  "arrive t = Wait t # replicate 4 (Pas t)"

definition announce :: "int \<Rightarrow> event list" where
  "announce n = Load n # replicate 6 Ctl"

definition claim_woken :: "nat \<Rightarrow> event list" where
  "claim_woken t = replicate 5 (Pas t)"

definition claim_late :: "nat \<Rightarrow> event list" where
  "claim_late t = Wait t # replicate 6 (Pas t)"

definition board_last :: "nat \<Rightarrow> event list" where
  "board_last t = Board t # replicate 5 (Pas t)"

definition board_quiet :: "nat \<Rightarrow> event list" where
  "board_quiet t = Board t # replicate 4 (Pas t)"

definition depart :: "event list" where
  "depart = replicate 6 Ctl"

definition pass_through :: "int \<Rightarrow> event list" where
  "pass_through n = Load n # replicate 9 Ctl"

text \<open>
  Passenger 1 waits; a train with two seats arrives, its quota is
  \<open>min(1, 2) = 1\<close>; passenger 1 takes a seat; passenger 2 arrives while the train is
  in the station and takes the other seat.
\<close>

definition first_train :: "event list" where
  "first_train = arrive 1 @ announce 2 @ claim_woken 1 @ claim_late 2"

text \<open>
  Then passenger 1 boards, which meets the quota; the train leaves; passenger 2 boards
  after that.
\<close>

definition late_boarder :: "event list" where
  "late_boarder = first_train @ board_last 1 @ depart @ board_quiet 2"

text \<open>Or both passengers board before the controller runs again.\<close>

definition crowded :: "event list" where
  "crowded = first_train @ board_last 1 @ board_quiet 2 @ depart"

text \<open>
  After the late boarder, passenger 3 waits and a train with one seat arrives: it leaves
  at once.
\<close>

definition empty_train :: "event list" where
  "empty_train = late_boarder @ arrive 3 @ pass_through 1"

section \<open>Evaluation of schedules\<close>

lemmas sched_simps = arrive_def announce_def claim_woken_def claim_late_def board_last_def
  board_quiet_def depart_def pass_through_def first_train_def late_boarder_def crowded_def
  empty_train_def

lemmas run_simps = sched_simps initial_def station_init_def garbage_def INT_MAX_def
  INT_MIN_def eval_nat_numeral

section \<open>Mutual exclusion\<close>

lemma mutex_inv_initial: "mutex_inv (initial s0)"
  by (simp add: mutex_inv_def initial_def station_init_def)

lemma mutex_invD:
  assumes "mutex_inv c"
  shows "holds_lock_ctl (ctl c) \<longleftrightarrow> lock (st c) = Some Controller"
    and "holds_lock_pas (pas c t) \<longleftrightarrow> lock (st c) = Some (Passenger t)"
  using assms by (simp_all add: mutex_inv_def)

lemma mutex_inv_ctl:
  assumes "mutex_inv c" and "station_load_train (ctl c) c = Inr c'"
  shows "mutex_inv c'"
  using assms by (cases "ctl c") (auto simp: mutex_inv_def split: if_splits)

lemma mutex_inv_wait:
  assumes "mutex_inv c" and "station_wait_for_train (pas c t) t c = Inr c'"
  shows "mutex_inv c'"
  using assms(2) mutex_invD(1) [OF assms(1)] mutex_invD(2) [OF assms(1), of t]
    mutex_invD(2) [OF assms(1)]
  by (cases "pas c t") (auto simp: mutex_inv_def split: if_splits)

lemma mutex_inv_board:
  assumes "mutex_inv c" and "station_on_board (pas c t) t c = Inr c'"
  shows "mutex_inv c'"
  using assms(2) mutex_invD(1) [OF assms(1)] mutex_invD(2) [OF assms(1), of t]
    mutex_invD(2) [OF assms(1)]
  by (cases "pas c t") (auto simp: mutex_inv_def split: if_splits)

lemma mutex_inv_call:
  assumes "mutex_inv c" and "pas c t = P_idle" and "pc = W_lock \<or> pc = B_lock"
  shows "mutex_inv (c\<lparr>pas := (pas c)(t := pc)\<rparr>)"
proof -
  have "lock (st c) \<noteq> Some (Passenger t)"
    using mutex_invD(2) [OF assms(1), of t] assms(2) by simp
  moreover have "\<not> holds_lock_pas pc"
    using assms(3) by auto
  ultimately show ?thesis
    using assms(1) by (simp add: mutex_inv_def)
qed

lemma mutex_inv_step:
  assumes "mutex_inv c" and "step e c = Inr c'"
  shows "mutex_inv c'"
proof (cases e)
  case (Load n)
  with assms show ?thesis by (auto simp: mutex_inv_def split: if_splits)
next
  case (Wait t)
  with assms show ?thesis by (auto intro: mutex_inv_call split: if_splits)
next
  case (Board t)
  with assms show ?thesis by (auto intro: mutex_inv_call split: if_splits)
next
  case Ctl
  with assms show ?thesis by (simp add: mutex_inv_ctl)
next
  case (Pas t)
  with assms show ?thesis by (auto intro: mutex_inv_wait mutex_inv_board split: if_splits)
next
  case (Spurious th)
  with assms show ?thesis by (auto simp: mutex_inv_def)
qed

lemma mutex_inv_run:
  "mutex_inv c \<Longrightarrow> run es c = Inr c' \<Longrightarrow> mutex_inv c'"
  by (induction es arbitrary: c) (auto split: sum.splits dest: mutex_inv_step)

lemma mutex_inv_reachable:
  "run es (initial s0) = Inr c \<Longrightarrow> mutex_inv c"
  using mutex_inv_initial by (rule mutex_inv_run)

text \<open>
  While one thread is between its \<open>pthread_mutex_lock\<close> and its
  \<open>pthread_mutex_unlock\<close>, no other thread can execute a statement: a thread runs
  its critical section alone.
\<close>

lemma passenger_runs_alone:
  assumes "run es (initial s0) = Inr c" and "holds_lock_pas (pas c t)"
  shows "step Ctl c = Inl Blocked" and "u \<noteq> t \<Longrightarrow> step (Pas u) c = Inl Blocked"
proof -
  have m: "mutex_inv c" using assms(1) by (rule mutex_inv_reachable)
  have l: "lock (st c) = Some (Passenger t)"
    using mutex_invD(2) [OF m, of t] assms(2) by simp
  have "\<not> holds_lock_ctl (ctl c)"
    using mutex_invD(1) [OF m] l by simp
  then show "step Ctl c = Inl Blocked"
    using l by (cases "ctl c") simp_all
  show "step (Pas u) c = Inl Blocked" if "u \<noteq> t"
  proof -
    have "\<not> holds_lock_pas (pas c u)"
      using mutex_invD(2) [OF m, of u] l that by simp
    then show ?thesis
      using l by (cases "pas c u") simp_all
  qed
qed

lemma controller_runs_alone:
  assumes "run es (initial s0) = Inr c" and "holds_lock_ctl (ctl c)"
  shows "step (Pas u) c = Inl Blocked"
proof -
  have m: "mutex_inv c" using assms(1) by (rule mutex_inv_reachable)
  have l: "lock (st c) = Some Controller"
    using mutex_invD(1) [OF m] assms(2) by simp
  have "\<not> holds_lock_pas (pas c u)"
    using mutex_invD(2) [OF m, of u] l by simp
  then show ?thesis
    using l by (cases "pas c u") simp_all
qed

text \<open>
  So the counters and the mutex change only by the statements of the thread that holds
  the mutex: the calls other threads begin and the spurious wake-ups leave them alone.
\<close>

lemma critical_section_undisturbed:
  assumes "run es (initial s0) = Inr c" and "lock (st c) = Some th"
    and "step e c = Inr c'" and "e \<noteq> runs th"
  shows "waiting (st c') = waiting (st c) \<and>
         seats_available (st c') = seats_available (st c) \<and>
         people_to_sit (st c') = people_to_sit (st c) \<and>
         boarding (st c') = boarding (st c) \<and> lock (st c') = lock (st c)"
proof (cases e)
  case (Load n)
  with assms(3) show ?thesis by (auto split: if_splits)
next
  case (Wait t)
  with assms(3) show ?thesis by (auto split: if_splits)
next
  case (Board t)
  with assms(3) show ?thesis by (auto split: if_splits)
next
  case Ctl
  have m: "mutex_inv c" using assms(1) by (rule mutex_inv_reachable)
  from Ctl assms(4) obtain t where t: "th = Passenger t"
    by (cases th) auto
  then have "holds_lock_pas (pas c t)"
    using mutex_invD(2) [OF m, of t] assms(2) by simp
  then have "step Ctl c = Inl Blocked"
    using assms(1) by (rule passenger_runs_alone(1) [rotated])
  with Ctl assms(3) show ?thesis by simp
next
  case (Pas u)
  have m: "mutex_inv c" using assms(1) by (rule mutex_inv_reachable)
  have "step (Pas u) c = Inl Blocked"
  proof (cases th)
    case Controller
    then have "holds_lock_ctl (ctl c)"
      using mutex_invD(1) [OF m] assms(2) by simp
    with assms(1) show ?thesis by (rule controller_runs_alone)
  next
    case (Passenger t)
    then have "holds_lock_pas (pas c t)"
      using mutex_invD(2) [OF m, of t] assms(2) by simp
    moreover have "u \<noteq> t"
      using Pas Passenger assms(4) by auto
    ultimately show ?thesis
      using assms(1) passenger_runs_alone(2) by blast
  qed
  with Pas assms(3) show ?thesis by simp
next
  case (Spurious x)
  with assms(3) show ?thesis by auto
qed

section \<open>Seats never go negative\<close>

lemma seats_inv_initial: "seats_inv (initial s0)"
  by (simp add: seats_inv_def initial_def station_init_def)

lemma seats_inv_ctl:
  assumes "mutex_inv c" and "seats_inv c" and "station_load_train (ctl c) c = Inr c'"
  shows "seats_inv c'"
proof -
  have free: "holds_lock_ctl (ctl c) \<Longrightarrow> pas c t \<noteq> W_dec_seats" for t
    using mutex_invD(1) [OF assms(1)] mutex_invD(2) [OF assms(1), of t] by auto
  show ?thesis
    using assms(2,3) free
    by (cases "ctl c") (auto simp: seats_inv_def split: if_splits)
qed

lemma seats_inv_wait:
  assumes "mutex_inv c" and "seats_inv c" and "station_wait_for_train (pas c t) t c = Inr c'"
  shows "seats_inv c'"
proof -
  have other: "holds_lock_pas (pas c t) \<Longrightarrow> u \<noteq> t \<Longrightarrow> pas c u \<noteq> W_dec_seats" for u
    using mutex_invD(2) [OF assms(1), of t] mutex_invD(2) [OF assms(1), of u] by auto
  show ?thesis
    using assms(2,3) other
    by (cases "pas c t") (auto simp: seats_inv_def split: if_splits)
qed

lemma seats_inv_board:
  assumes "seats_inv c" and "station_on_board (pas c t) t c = Inr c'"
  shows "seats_inv c'"
  using assms by (cases "pas c t") (auto simp: seats_inv_def split: if_splits)

lemma seats_inv_step:
  assumes "mutex_inv c" and "seats_inv c" and "step e c = Inr c'" and "nonneg_count e"
  shows "seats_inv c'"
proof (cases e)
  case (Load n)
  with assms show ?thesis by (auto simp: seats_inv_def split: if_splits)
next
  case (Wait t)
  with assms show ?thesis by (auto simp: seats_inv_def split: if_splits)
next
  case (Board t)
  with assms show ?thesis by (auto simp: seats_inv_def split: if_splits)
next
  case Ctl
  with assms show ?thesis by (simp add: seats_inv_ctl)
next
  case (Pas t)
  with assms show ?thesis by (auto intro: seats_inv_wait seats_inv_board split: if_splits)
next
  case (Spurious th)
  with assms show ?thesis by (auto simp: seats_inv_def)
qed

lemma seats_inv_run:
  "mutex_inv c \<Longrightarrow> seats_inv c \<Longrightarrow> \<forall>e \<in> set es. nonneg_count e \<Longrightarrow>
   run es c = Inr c' \<Longrightarrow> seats_inv c'"
proof (induction es arbitrary: c)
  case Nil
  then show ?case by simp
next
  case (Cons e es)
  from Cons.prems(4) obtain d where d: "step e c = Inr d" and r: "run es d = Inr c'"
    by (auto split: sum.splits)
  have "mutex_inv d" using Cons.prems(1) d by (rule mutex_inv_step)
  moreover have "seats_inv d"
    using Cons.prems(1,2) d by (rule seats_inv_step) (use Cons.prems(3) in simp)
  ultimately show ?case using Cons.IH [of d] Cons.prems(3) r by simp
qed

text \<open>
  C4. In every configuration that a schedule reaches from an initialised station, all
  of whose \<open>station_load_train\<close> calls have a non-negative \<open>count\<close>,
  \<open>seats_available\<close> is at least 0; and a passenger about to execute the decrement of
  line 72 holds the mutex and has \<open>seats_available > 0\<close>, so that no decrement takes
  the counter below zero.
\<close>

theorem seats_never_negative:
  assumes "run es (initial s0) = Inr c" and "\<forall>e \<in> set es. nonneg_count e"
  shows "0 \<le> seats_available (st c) \<and>
         (\<forall>t. pas c t = W_dec_seats \<longrightarrow>
            lock (st c) = Some (Passenger t) \<and> 0 < seats_available (st c))"
proof -
  have m: "mutex_inv c"
    using assms(1) by (rule mutex_inv_reachable)
  have "seats_inv c"
    using mutex_inv_initial seats_inv_initial assms(2,1) by (rule seats_inv_run)
  moreover have "lock (st c) = Some (Passenger t)" if "pas c t = W_dec_seats" for t
    using mutex_invD(2) [OF m, of t] that by simp
  ultimately show ?thesis
    by (simp add: seats_inv_def)
qed

text \<open>
  At a concrete execution: passenger 1 waits, a train with two seats arrives, and
  passenger 1 stands before the decrement of line 72.
\<close>

theorem seats_never_negative_witness:
  "\<exists>c. run (arrive 1 @ announce 2 @ [Pas 1, Pas 1]) (initial garbage) = Inr c \<and>
     list_all nonneg_count (arrive 1 @ announce 2 @ [Pas 1, Pas 1]) \<and>
     pas c 1 = W_dec_seats \<and> seats_available (st c) = 2 \<and>
     0 \<le> seats_available (st c) \<and> lock (st c) = Some (Passenger 1) \<and>
     0 < seats_available (st c)"
proof -
  obtain c where r: "run (arrive 1 @ announce 2 @ [Pas 1, Pas 1]) (initial garbage) = Inr c"
    and p: "pas c 1 = W_dec_seats" and s: "seats_available (st c) = 2"
    by (simp add: run_simps)
  have h: "\<forall>e \<in> set (arrive 1 @ announce 2 @ [Pas 1, Pas 1]). nonneg_count e"
    by (simp add: run_simps)
  from seats_never_negative [OF r h] p
  have "0 \<le> seats_available (st c) \<and> lock (st c) = Some (Passenger 1) \<and>
      0 < seats_available (st c)"
    by blast
  then show ?thesis
    using r h p s by (auto simp: list_all_iff)
qed

section \<open>The boarding counter is never negative\<close>

lemma boarding_nonneg_step:
  assumes "0 \<le> boarding (st c)" and "step e c = Inr c'"
  shows "0 \<le> boarding (st c')"
proof (cases e)
  case (Load n)
  with assms show ?thesis by (auto split: if_splits)
next
  case (Wait t)
  with assms show ?thesis by (auto split: if_splits)
next
  case (Board t)
  with assms show ?thesis by (auto split: if_splits)
next
  case Ctl
  with assms show ?thesis by (cases "ctl c") (auto split: if_splits)
next
  case (Pas t)
  with assms show ?thesis by (cases "pas c t") (auto split: if_splits)
next
  case (Spurious th)
  with assms show ?thesis by auto
qed

lemma boarding_nonneg_run:
  "0 \<le> boarding (st c) \<Longrightarrow> run es c = Inr c' \<Longrightarrow> 0 \<le> boarding (st c')"
  by (induction es arbitrary: c) (auto split: sum.splits dest: boarding_nonneg_step)

lemma boarding_nonneg:
  "run es (initial s0) = Inr c \<Longrightarrow> 0 \<le> boarding (st c)"
  by (rule boarding_nonneg_run [of "initial s0"]) (simp_all add: initial_def station_init_def)

section \<open>Between trains\<close>

lemma rest_inv_initial: "rest_inv (initial s0)"
  by (simp add: rest_inv_def initial_def station_init_def)

lemma rest_inv_ctl:
  assumes "mutex_inv c" and "rest_inv c" and "station_load_train (ctl c) c = Inr c'"
  shows "rest_inv c'"
proof -
  have free: "holds_lock_ctl (ctl c) \<Longrightarrow> pas c t \<noteq> W_dec_seats" for t
    using mutex_invD(1) [OF assms(1)] mutex_invD(2) [OF assms(1), of t] by auto
  show ?thesis
    using assms(2,3) free
    by (cases "ctl c") (auto simp: rest_inv_def split: if_splits)
qed

lemma rest_inv_wait:
  assumes "mutex_inv c" and "rest_inv c" and "station_wait_for_train (pas c t) t c = Inr c'"
  shows "rest_inv c'"
proof -
  have other: "holds_lock_pas (pas c t) \<Longrightarrow> u \<noteq> t \<Longrightarrow> pas c u \<noteq> W_dec_seats" for u
    using mutex_invD(2) [OF assms(1), of t] mutex_invD(2) [OF assms(1), of u] by auto
  show ?thesis
    using assms(2,3) other
    by (cases "pas c t") (auto simp: rest_inv_def split: if_splits)
qed

lemma rest_inv_board:
  assumes "rest_inv c" and "station_on_board (pas c t) t c = Inr c'"
  shows "rest_inv c'"
  using assms by (cases "pas c t") (auto simp: rest_inv_def split: if_splits)

lemma rest_inv_step:
  assumes "mutex_inv c" and "rest_inv c" and "step e c = Inr c'"
  shows "rest_inv c'"
proof (cases e)
  case (Load n)
  with assms show ?thesis by (auto simp: rest_inv_def split: if_splits)
next
  case (Wait t)
  with assms show ?thesis by (auto simp: rest_inv_def split: if_splits)
next
  case (Board t)
  with assms show ?thesis by (auto simp: rest_inv_def split: if_splits)
next
  case Ctl
  with assms show ?thesis by (simp add: rest_inv_ctl)
next
  case (Pas t)
  with assms show ?thesis by (auto intro: rest_inv_wait rest_inv_board split: if_splits)
next
  case (Spurious th)
  with assms show ?thesis by (auto simp: rest_inv_def)
qed

lemma rest_inv_run:
  "mutex_inv c \<Longrightarrow> rest_inv c \<Longrightarrow> run es c = Inr c' \<Longrightarrow> rest_inv c'"
proof (induction es arbitrary: c)
  case Nil
  then show ?case by simp
next
  case (Cons e es)
  from Cons.prems(3) obtain d where d: "step e c = Inr d" and r: "run es d = Inr c'"
    by (auto split: sum.splits)
  have "mutex_inv d" using Cons.prems(1) d by (rule mutex_inv_step)
  moreover have "rest_inv d" using Cons.prems(1,2) d by (rule rest_inv_step)
  ultimately show ?case using Cons.IH [of d] r by simp
qed

text \<open>
  While the controller is outside \<open>station_load_train\<close>, \<open>seats_available\<close> and
  \<open>people_to_sit\<close> are 0, whatever the passengers do and whatever the counts were.
\<close>

lemma no_seats_between_trains:
  assumes "run es (initial s0) = Inr c" and "ctl c = C_idle"
  shows "seats_available (st c) = 0 \<and> people_to_sit (st c) = 0"
proof -
  have "rest_inv c"
    using mutex_inv_initial rest_inv_initial assms(1) by (rule rest_inv_run)
  then show ?thesis
    using assms(2) by (simp add: rest_inv_def)
qed

section \<open>\<open>station_load_train\<close>: the quota\<close>

lemma kept_step:
  assumes "kept q c" and "step e c = Inr c'" and "\<not> is_load e"
  shows "kept q c'"
proof (cases e)
  case (Load n)
  with assms show ?thesis by simp
next
  case (Wait t)
  with assms show ?thesis by (auto simp: kept_def split: if_splits)
next
  case (Board t)
  with assms show ?thesis by (auto simp: kept_def split: if_splits)
next
  case Ctl
  with assms show ?thesis by (cases "ctl c") (auto simp: kept_def split: if_splits)
next
  case (Pas t)
  with assms show ?thesis by (cases "pas c t") (auto simp: kept_def split: if_splits)
next
  case (Spurious th)
  with assms show ?thesis by (auto simp: kept_def)
qed

lemma kept_run:
  "kept q c \<Longrightarrow> \<forall>e \<in> set es. \<not> is_load e \<Longrightarrow> run es c = Inr c' \<Longrightarrow> kept q c'"
proof (induction es arbitrary: c)
  case Nil
  then show ?case by simp
next
  case (Cons e es)
  from Cons.prems(3) obtain d where d: "step e c = Inr d" and r: "run es d = Inr c'"
    by (auto split: sum.splits)
  have "kept q d" using Cons.prems(1) d by (rule kept_step) (use Cons.prems(2) in simp)
  then show ?case using Cons.IH [of d] Cons.prems(2) r by simp
qed

text \<open>
  C5. When the controller takes the mutex in \<open>station_load_train(count)\<close>, its next
  statements set \<open>seats_available\<close> to \<open>count\<close> and \<open>people_to_sit\<close> to the minimum
  of \<open>count\<close> and the value \<open>waiting\<close> has at that moment. Whatever the threads do
  afterwards (any schedule without a further call of \<open>station_load_train\<close>), as long
  as the controller has not executed the reset of line 49, \<open>people_to_sit\<close> still is
  that minimum: it is not computed again, even when \<open>waiting\<close> changes.
\<close>

theorem load_train_quota_fixed_at_entry:
  assumes "ctl c = L_lock n" and "lock (st c) = None"
  shows "\<exists>c1. run [Ctl, Ctl, Ctl] c = Inr c1 \<and> ctl c1 = L_broadcast \<and>
           seats_available (st c1) = n \<and>
           people_to_sit (st c1) = min (waiting (st c)) n \<and>
           (\<forall>es c2. (\<forall>e \<in> set es. \<not> is_load e) \<and> run es c1 = Inr c2 \<and>
                quota_in_force (ctl c2) \<longrightarrow>
              people_to_sit (st c2) = min (waiting (st c)) n)"
proof -
  define c1 where "c1 = c\<lparr>st := (st c)\<lparr>lock := Some Controller, seats_available := n,
      people_to_sit := (if waiting (st c) < n then waiting (st c) else n)\<rparr>,
      ctl := L_broadcast\<rparr>"
  have r: "run [Ctl, Ctl, Ctl] c = Inr c1"
    using assms by (simp add: c1_def)
  have q: "people_to_sit (st c1) = min (waiting (st c)) n"
    by (simp add: c1_def min_def)
  have k: "kept (min (waiting (st c)) n) c1"
    using q by (simp add: kept_def c1_def)
  have "people_to_sit (st c2) = min (waiting (st c)) n"
    if "\<forall>e \<in> set es. \<not> is_load e" and "run es c1 = Inr c2" and "quota_in_force (ctl c2)"
    for es c2
    using kept_run [OF k that(1,2)] that(3) by (auto simp: kept_def)
  then show ?thesis
    using r q by (auto simp: c1_def)
qed

text \<open>
  At a concrete execution: passenger 1 waits and a train with two seats is called in,
  so the quota is 1; while the controller is suspended passenger 2 arrives and
  \<open>waiting\<close> becomes 2; the quota stays 1.
\<close>

theorem load_train_quota_fixed_at_entry_witness:
  "\<exists>c c1 c2. run (arrive 1 @ [Load 2]) (initial garbage) = Inr c \<and>
     ctl c = L_lock 2 \<and> lock (st c) = None \<and> waiting (st c) = 1 \<and>
     run [Ctl, Ctl, Ctl] c = Inr c1 \<and> seats_available (st c1) = 2 \<and>
     people_to_sit (st c1) = min (waiting (st c)) 2 \<and>
     list_all (\<lambda>e. \<not> is_load e) (replicate 3 Ctl @ arrive 2) \<and>
     run (replicate 3 Ctl @ arrive 2) c1 = Inr c2 \<and> quota_in_force (ctl c2) \<and>
     waiting (st c2) = 2 \<and> people_to_sit (st c2) = min (waiting (st c)) 2 \<and>
     people_to_sit (st c2) = 1"
proof -
  obtain c where r: "run (arrive 1 @ [Load 2]) (initial garbage) = Inr c"
    and h: "ctl c = L_lock 2" "lock (st c) = None" and w: "waiting (st c) = 1"
    by (simp add: run_simps)
  from load_train_quota_fixed_at_entry [OF h]
  obtain c1 where c1: "run [Ctl, Ctl, Ctl] c = Inr c1" "seats_available (st c1) = 2"
      "people_to_sit (st c1) = min (waiting (st c)) 2"
    and keep: "\<And>es c2. (\<forall>e \<in> set es. \<not> is_load e) \<Longrightarrow> run es c1 = Inr c2 \<Longrightarrow>
        quota_in_force (ctl c2) \<Longrightarrow> people_to_sit (st c2) = min (waiting (st c)) 2"
    by blast
  have n: "\<forall>e \<in> set (replicate 3 Ctl @ arrive 2). \<not> is_load e"
    by (simp add: run_simps)
  have "run (arrive 1 @ [Load 2] @ [Ctl, Ctl, Ctl]) (initial garbage) = Inr c1"
    using r c1(1) by (simp add: run_simps)
  then obtain c2 where c2: "run (replicate 3 Ctl @ arrive 2) c1 = Inr c2"
    and q: "quota_in_force (ctl c2)" and w2: "waiting (st c2) = 2"
    by (auto simp: run_simps)
  have "people_to_sit (st c2) = min (waiting (st c)) 2"
    using n c2 q by (rule keep)
  then show ?thesis
    using r h w c1 n c2 q w2 by (auto simp: list_all_iff)
qed

section \<open>\<open>station_load_train\<close>: calls that do not suspend\<close>

text \<open>
  C6. From any configuration a schedule reaches, a call \<open>station_load_train(0)\<close> that
  gets the mutex runs lines 26 to 51 in one go: the loop test of line 41 fails the
  first time, the controller never enters \<open>pthread_cond_wait\<close> and keeps the mutex
  from line 26 to line 51, and \<open>waiting\<close> has its old value throughout. No passenger
  gets out of \<open>station_wait_for_train\<close>: the broadcast of line 38 wakes the suspended
  passengers, but each of them, once the mutex is free again, finds
  \<open>seats_available = 0\<close> in line 62 and suspends again, \<open>waiting\<close> unchanged.
\<close>

theorem load_train_zero_count:
  assumes "run es (initial s0) = Inr c" and "ctl c = L_lock 0" and "lock (st c) = None"
  shows "map ctl (visited (replicate 9 Ctl) c) =
           [L_lock 0, L_set_seats 0, L_set_quota 0, L_broadcast, L_test,
            L_reset_boarding, L_reset_seats, L_reset_quota, L_unlock, C_idle] \<and>
         map (\<lambda>d. lock (st d)) (visited (replicate 9 Ctl) c) =
           None # replicate 8 (Some Controller) @ [None] \<and>
         list_all (\<lambda>d. waiting (st d) = waiting (st c)) (visited (replicate 9 Ctl) c) \<and>
         (\<exists>c'. run (replicate 9 Ctl) c = Inr c' \<and> ctl c' = C_idle \<and> pas c' = pas c \<and>
            (\<forall>t. pas c t = W_suspended \<longrightarrow>
               map (\<lambda>d. pas d t) (visited [Pas t, Pas t, Pas t] c') =
                 [W_suspended, W_test, W_cond_wait, W_suspended] \<and>
               list_all (\<lambda>d. waiting (st d) = waiting (st c))
                 (visited [Pas t, Pas t, Pas t] c')))"
proof -
  have b: "0 \<le> boarding (st c)"
    using assms(1) by (rule boarding_nonneg)
  then have nb: "\<not> boarding (st c) < waiting (st c)" if "waiting (st c) < 0"
    using that by simp
  show ?thesis
    using assms(2,3) b nb by (simp add: eval_nat_numeral)
qed

text \<open>
  At a concrete execution: passenger 1 is suspended in \<open>station_wait_for_train\<close> when
  the controller calls \<open>station_load_train(0)\<close>.
\<close>

theorem load_train_zero_count_witness:
  "\<exists>c c'. run (arrive 1 @ [Load 0]) (initial garbage) = Inr c \<and>
     ctl c = L_lock 0 \<and> lock (st c) = None \<and> pas c 1 = W_suspended \<and>
     map ctl (visited (replicate 9 Ctl) c) =
       [L_lock 0, L_set_seats 0, L_set_quota 0, L_broadcast, L_test,
        L_reset_boarding, L_reset_seats, L_reset_quota, L_unlock, C_idle] \<and>
     run (replicate 9 Ctl) c = Inr c' \<and> ctl c' = C_idle \<and>
     map (\<lambda>d. pas d 1) (visited [Pas 1, Pas 1, Pas 1] c') =
       [W_suspended, W_test, W_cond_wait, W_suspended] \<and>
     list_all (\<lambda>d. waiting (st d) = waiting (st c)) (visited [Pas 1, Pas 1, Pas 1] c')"
proof -
  obtain c where r: "run (arrive 1 @ [Load 0]) (initial garbage) = Inr c"
    and h: "ctl c = L_lock 0" "lock (st c) = None" and p: "pas c 1 = W_suspended"
    by (simp add: run_simps)
  note inst = load_train_zero_count [OF r h]
  from inst have path: "map ctl (visited (replicate 9 Ctl) c) =
       [L_lock 0, L_set_seats 0, L_set_quota 0, L_broadcast, L_test,
        L_reset_boarding, L_reset_seats, L_reset_quota, L_unlock, C_idle]"
    by (rule conjunct1)
  from inst p obtain c' where a: "run (replicate 9 Ctl) c = Inr c'" "ctl c' = C_idle"
      "map (\<lambda>d. pas d 1) (visited [Pas 1, Pas 1, Pas 1] c') =
         [W_suspended, W_test, W_cond_wait, W_suspended]"
      "list_all (\<lambda>d. waiting (st d) = waiting (st c)) (visited [Pas 1, Pas 1, Pas 1] c')"
    by blast
  show ?thesis
    by (intro exI [of _ c] exI [of _ c'] conjI) (fact r h p path a)+
qed

text \<open>
  C7. In any configuration whatever, reached by a schedule or not, with \<open>boarding\<close>
  not negative (as it is in every configuration a schedule reaches, by
  \<open>boarding_nonneg\<close>): a call \<open>station_load_train(count)\<close> with \<open>count \<ge> 0\<close> that
  gets the mutex while \<open>waiting\<close> is 0 leaves \<open>people_to_sit\<close> as it finds it in
  lines 26 and 29 and sets it to 0 in line 35, whatever it was before; the loop test of
  line 41 then fails the first time, so the call runs lines 26 to 51 in one go, keeps
  the mutex throughout and never enters \<open>pthread_cond_wait\<close>.
\<close>

theorem load_train_nobody_waiting:
  assumes "ctl c = L_lock n" and "0 \<le> n" and "waiting (st c) = 0"
    and "lock (st c) = None" and "0 \<le> boarding (st c)"
  shows "map ctl (visited (replicate 9 Ctl) c) =
           [L_lock n, L_set_seats n, L_set_quota n, L_broadcast, L_test,
            L_reset_boarding, L_reset_seats, L_reset_quota, L_unlock, C_idle] \<and>
         map (\<lambda>d. lock (st d)) (visited (replicate 9 Ctl) c) =
           None # replicate 8 (Some Controller) @ [None] \<and>
         map (\<lambda>d. people_to_sit (st d)) (visited [Ctl, Ctl, Ctl] c) =
           [people_to_sit (st c), people_to_sit (st c), people_to_sit (st c), 0] \<and>
         (\<exists>c3. run [Ctl, Ctl, Ctl] c = Inr c3 \<and> ctl c3 = L_broadcast \<and>
            people_to_sit (st c3) = 0 \<and> seats_available (st c3) = n) \<and>
         (\<exists>c'. run (replicate 9 Ctl) c = Inr c' \<and> ctl c' = C_idle)"
  using assms by (simp add: eval_nat_numeral)

text \<open>
  At two concrete configurations. In \<open>stale_platform\<close> the controller is about to
  take the mutex for \<open>station_load_train(4)\<close> with nobody waiting, \<open>people_to_sit\<close>
  still 3 and \<open>boarding\<close> 2: line 35 is what takes \<open>people_to_sit\<close> from 3 to 0. The
  other is reached by a schedule: \<open>station_load_train(4)\<close> on an empty platform.
\<close>

theorem load_train_nobody_waiting_witness:
  "(ctl stale_platform = L_lock 4 \<and> (0 :: int) \<le> 4 \<and> waiting (st stale_platform) = 0 \<and>
      lock (st stale_platform) = None \<and> 0 \<le> boarding (st stale_platform) \<and>
      people_to_sit (st stale_platform) = 3 \<and>
      map ctl (visited (replicate 9 Ctl) stale_platform) =
        [L_lock 4, L_set_seats 4, L_set_quota 4, L_broadcast, L_test,
         L_reset_boarding, L_reset_seats, L_reset_quota, L_unlock, C_idle] \<and>
      map (\<lambda>d. people_to_sit (st d)) (visited [Ctl, Ctl, Ctl] stale_platform) =
        [3, 3, 3, 0] \<and>
      (\<exists>c3. run [Ctl, Ctl, Ctl] stale_platform = Inr c3 \<and> people_to_sit (st c3) = 0)) \<and>
   (\<exists>c c3. run [Load 4] (initial garbage) = Inr c \<and>
      ctl c = L_lock 4 \<and> (0 :: int) \<le> 4 \<and> waiting (st c) = 0 \<and> lock (st c) = None \<and>
      0 \<le> boarding (st c) \<and>
      map ctl (visited (replicate 9 Ctl) c) =
        [L_lock 4, L_set_seats 4, L_set_quota 4, L_broadcast, L_test,
         L_reset_boarding, L_reset_seats, L_reset_quota, L_unlock, C_idle] \<and>
      run [Ctl, Ctl, Ctl] c = Inr c3 \<and> people_to_sit (st c3) = 0)"
proof (intro conjI)
  have h: "ctl stale_platform = L_lock 4" "(0 :: int) \<le> 4"
      "waiting (st stale_platform) = 0" "lock (st stale_platform) = None"
      "0 \<le> boarding (st stale_platform)"
    and q: "people_to_sit (st stale_platform) = 3"
    by (simp_all add: stale_platform_def)
  note inst = load_train_nobody_waiting [OF h]
  show "ctl stale_platform = L_lock 4" "(0 :: int) \<le> 4" "waiting (st stale_platform) = 0"
    "lock (st stale_platform) = None" "0 \<le> boarding (st stale_platform)"
    "people_to_sit (st stale_platform) = 3"
    by (fact h q)+
  from inst show "map ctl (visited (replicate 9 Ctl) stale_platform) =
        [L_lock 4, L_set_seats 4, L_set_quota 4, L_broadcast, L_test,
         L_reset_boarding, L_reset_seats, L_reset_quota, L_unlock, C_idle]"
    by (rule conjunct1)
  from inst have "map (\<lambda>d. people_to_sit (st d)) (visited [Ctl, Ctl, Ctl] stale_platform) =
        [people_to_sit (st stale_platform), people_to_sit (st stale_platform),
         people_to_sit (st stale_platform), 0]"
    by blast
  then show "map (\<lambda>d. people_to_sit (st d)) (visited [Ctl, Ctl, Ctl] stale_platform) =
        [3, 3, 3, 0]"
    unfolding q .
  from inst show "\<exists>c3. run [Ctl, Ctl, Ctl] stale_platform = Inr c3 \<and>
      people_to_sit (st c3) = 0"
    by blast
next
  obtain c where r: "run [Load 4] (initial garbage) = Inr c"
    and h: "ctl c = L_lock 4" "(0 :: int) \<le> 4" "waiting (st c) = 0" "lock (st c) = None"
      "0 \<le> boarding (st c)"
    by (simp add: run_simps)
  note inst = load_train_nobody_waiting [OF h]
  from inst have path: "map ctl (visited (replicate 9 Ctl) c) =
       [L_lock 4, L_set_seats 4, L_set_quota 4, L_broadcast, L_test,
        L_reset_boarding, L_reset_seats, L_reset_quota, L_unlock, C_idle]"
    by (rule conjunct1)
  from inst obtain c3 where a: "run [Ctl, Ctl, Ctl] c = Inr c3" "people_to_sit (st c3) = 0"
    by blast
  show "\<exists>c c3. run [Load 4] (initial garbage) = Inr c \<and>
      ctl c = L_lock 4 \<and> (0 :: int) \<le> 4 \<and> waiting (st c) = 0 \<and> lock (st c) = None \<and>
      0 \<le> boarding (st c) \<and>
      map ctl (visited (replicate 9 Ctl) c) =
        [L_lock 4, L_set_seats 4, L_set_quota 4, L_broadcast, L_test,
         L_reset_boarding, L_reset_seats, L_reset_quota, L_unlock, C_idle] \<and>
      run [Ctl, Ctl, Ctl] c = Inr c3 \<and> people_to_sit (st c3) = 0"
    by (intro exI [of _ c] exI [of _ c3] conjI) (fact r h path a)+
qed

section \<open>\<open>station_wait_for_train\<close>\<close>

text \<open>
  C8. The four ways through \<open>station_wait_for_train\<close>, for a passenger \<open>t\<close> that runs
  from one release of the mutex to the next (the counters being inside the range of
  \<open>int\<close> where a statement increments or decrements them); by
  \<open>critical_section_undisturbed\<close> no other thread changes a counter meanwhile.
  Entry without a seat: \<open>t\<close> takes the mutex, increments \<open>waiting\<close>, finds
  \<open>seats_available = 0\<close> and suspends on \<open>train_arrived\<close>; it cannot go on before it
  is woken.
  Entry with a seat: \<open>t\<close> increments \<open>waiting\<close>, then decrements \<open>seats_available\<close> and
  \<open>waiting\<close> by one each and returns; \<open>waiting\<close> ends where it started.
  Wake-up without a seat: \<open>t\<close> finds \<open>seats_available = 0\<close> and suspends again, the
  counters unchanged.
  Wake-up with a seat: \<open>t\<close> decrements \<open>seats_available\<close> and \<open>waiting\<close> by one each
  and returns. With the increment made at entry, the call has changed \<open>waiting\<close> by zero.
  The function returns on no other path.
\<close>

theorem wait_for_train_claims_one_seat:
  "(pas c t = W_lock \<and> lock (st c) = None \<and> waiting (st c) < INT_MAX \<and>
      seats_available (st c) = 0 \<longrightarrow>
      (\<exists>c'. run [Pas t, Pas t, Pas t, Pas t] c = Inr c' \<and>
         map (\<lambda>d. pas d t) (visited [Pas t, Pas t, Pas t, Pas t] c) =
           [W_lock, W_inc_waiting, W_test, W_cond_wait, W_suspended] \<and>
         waiting (st c') = waiting (st c) + 1 \<and>
         seats_available (st c') = seats_available (st c) \<and>
         lock (st c') = None \<and> Passenger t \<in> train_arrived (st c') \<and>
         step (Pas t) c' = Inl Blocked)) \<and>
   (pas c t = W_lock \<and> lock (st c) = None \<and> waiting (st c) < INT_MAX \<and>
      INT_MIN \<le> waiting (st c) \<and> seats_available (st c) \<noteq> 0 \<and>
      INT_MIN < seats_available (st c) \<longrightarrow>
      (\<exists>c'. run [Pas t, Pas t, Pas t, Pas t, Pas t, Pas t] c = Inr c' \<and>
         map (\<lambda>d. pas d t) (visited [Pas t, Pas t, Pas t, Pas t, Pas t, Pas t] c) =
           [W_lock, W_inc_waiting, W_test, W_dec_seats, W_dec_waiting, W_unlock, P_idle] \<and>
         map (\<lambda>d. waiting (st d)) (visited [Pas t, Pas t, Pas t, Pas t, Pas t, Pas t] c) =
           [waiting (st c), waiting (st c), waiting (st c) + 1, waiting (st c) + 1,
            waiting (st c) + 1, waiting (st c), waiting (st c)] \<and>
         seats_available (st c') = seats_available (st c) - 1 \<and>
         waiting (st c') = waiting (st c) \<and> lock (st c') = None)) \<and>
   (pas c t = W_suspended \<and> Passenger t \<notin> train_arrived (st c) \<and> lock (st c) = None \<and>
      seats_available (st c) = 0 \<longrightarrow>
      (\<exists>c'. run [Pas t, Pas t, Pas t] c = Inr c' \<and>
         map (\<lambda>d. pas d t) (visited [Pas t, Pas t, Pas t] c) =
           [W_suspended, W_test, W_cond_wait, W_suspended] \<and>
         waiting (st c') = waiting (st c) \<and>
         seats_available (st c') = seats_available (st c) \<and>
         lock (st c') = None \<and> Passenger t \<in> train_arrived (st c') \<and>
         step (Pas t) c' = Inl Blocked)) \<and>
   (pas c t = W_suspended \<and> Passenger t \<notin> train_arrived (st c) \<and> lock (st c) = None \<and>
      INT_MIN < waiting (st c) \<and> seats_available (st c) \<noteq> 0 \<and>
      INT_MIN < seats_available (st c) \<longrightarrow>
      (\<exists>c'. run [Pas t, Pas t, Pas t, Pas t, Pas t] c = Inr c' \<and>
         map (\<lambda>d. pas d t) (visited [Pas t, Pas t, Pas t, Pas t, Pas t] c) =
           [W_suspended, W_test, W_dec_seats, W_dec_waiting, W_unlock, P_idle] \<and>
         seats_available (st c') = seats_available (st c) - 1 \<and>
         waiting (st c') = waiting (st c) - 1 \<and> lock (st c') = None))"
  by (simp add: INT_MIN_def INT_MAX_def)

text \<open>
  At concrete executions, one for each way: passenger 1 on an empty platform;
  passenger 2 arriving when passenger 1 has taken one of two seats; passenger 1 woken
  by a train without seats; passenger 1 woken by a train with two seats.
\<close>

theorem wait_for_train_claims_one_seat_witness:
  "(\<exists>c c'. run [Wait 1] (initial garbage) = Inr c \<and>
      pas c 1 = W_lock \<and> lock (st c) = None \<and> waiting (st c) < INT_MAX \<and>
      seats_available (st c) = 0 \<and>
      run [Pas 1, Pas 1, Pas 1, Pas 1] c = Inr c' \<and>
      waiting (st c') = waiting (st c) + 1 \<and> step (Pas 1) c' = Inl Blocked) \<and>
   (\<exists>c c'. run (arrive 1 @ announce 2 @ claim_woken 1 @ [Wait 2]) (initial garbage) = Inr c \<and>
      pas c 2 = W_lock \<and> lock (st c) = None \<and> waiting (st c) < INT_MAX \<and>
      INT_MIN \<le> waiting (st c) \<and> seats_available (st c) \<noteq> 0 \<and>
      INT_MIN < seats_available (st c) \<and>
      run [Pas 2, Pas 2, Pas 2, Pas 2, Pas 2, Pas 2] c = Inr c' \<and>
      seats_available (st c') = seats_available (st c) - 1 \<and>
      waiting (st c') = waiting (st c)) \<and>
   (\<exists>c c'. run (arrive 1 @ pass_through 0) (initial garbage) = Inr c \<and>
      pas c 1 = W_suspended \<and> Passenger 1 \<notin> train_arrived (st c) \<and>
      lock (st c) = None \<and> seats_available (st c) = 0 \<and>
      run [Pas 1, Pas 1, Pas 1] c = Inr c' \<and>
      waiting (st c') = waiting (st c) \<and> step (Pas 1) c' = Inl Blocked) \<and>
   (\<exists>c c'. run (arrive 1 @ announce 2) (initial garbage) = Inr c \<and>
      pas c 1 = W_suspended \<and> Passenger 1 \<notin> train_arrived (st c) \<and>
      lock (st c) = None \<and> INT_MIN < waiting (st c) \<and> seats_available (st c) \<noteq> 0 \<and>
      INT_MIN < seats_available (st c) \<and>
      run [Pas 1, Pas 1, Pas 1, Pas 1, Pas 1] c = Inr c' \<and>
      seats_available (st c') = seats_available (st c) - 1 \<and>
      waiting (st c') = waiting (st c) - 1)"
proof (intro conjI)
  obtain c where r: "run [Wait 1] (initial garbage) = Inr c"
    and h: "pas c 1 = W_lock" "lock (st c) = None" "waiting (st c) < INT_MAX"
      "seats_available (st c) = 0"
    by (simp add: run_simps)
  from wait_for_train_claims_one_seat [of c 1] h
  obtain c' where a: "run [Pas 1, Pas 1, Pas 1, Pas 1] c = Inr c'"
      "waiting (st c') = waiting (st c) + 1" "step (Pas 1) c' = Inl Blocked"
    by blast
  show "\<exists>c c'. run [Wait 1] (initial garbage) = Inr c \<and>
      pas c 1 = W_lock \<and> lock (st c) = None \<and> waiting (st c) < INT_MAX \<and>
      seats_available (st c) = 0 \<and>
      run [Pas 1, Pas 1, Pas 1, Pas 1] c = Inr c' \<and>
      waiting (st c') = waiting (st c) + 1 \<and> step (Pas 1) c' = Inl Blocked"
    by (intro exI [of _ c] exI [of _ c'] conjI) (fact r h a)+
next
  obtain c
    where r: "run (arrive 1 @ announce 2 @ claim_woken 1 @ [Wait 2]) (initial garbage) = Inr c"
    and h: "pas c 2 = W_lock" "lock (st c) = None" "waiting (st c) < INT_MAX"
      "INT_MIN \<le> waiting (st c)" "seats_available (st c) \<noteq> 0"
      "INT_MIN < seats_available (st c)"
    by (simp add: run_simps)
  from wait_for_train_claims_one_seat [of c 2] h
  obtain c' where a: "run [Pas 2, Pas 2, Pas 2, Pas 2, Pas 2, Pas 2] c = Inr c'"
      "seats_available (st c') = seats_available (st c) - 1"
      "waiting (st c') = waiting (st c)"
    by blast
  show "\<exists>c c'.
      run (arrive 1 @ announce 2 @ claim_woken 1 @ [Wait 2]) (initial garbage) = Inr c \<and>
      pas c 2 = W_lock \<and> lock (st c) = None \<and> waiting (st c) < INT_MAX \<and>
      INT_MIN \<le> waiting (st c) \<and> seats_available (st c) \<noteq> 0 \<and>
      INT_MIN < seats_available (st c) \<and>
      run [Pas 2, Pas 2, Pas 2, Pas 2, Pas 2, Pas 2] c = Inr c' \<and>
      seats_available (st c') = seats_available (st c) - 1 \<and>
      waiting (st c') = waiting (st c)"
    by (intro exI [of _ c] exI [of _ c'] conjI) (fact r h a)+
next
  obtain c where r: "run (arrive 1 @ pass_through 0) (initial garbage) = Inr c"
    and h: "pas c 1 = W_suspended" "Passenger 1 \<notin> train_arrived (st c)"
      "lock (st c) = None" "seats_available (st c) = 0"
    by (simp add: run_simps)
  from wait_for_train_claims_one_seat [of c 1] h
  obtain c' where a: "run [Pas 1, Pas 1, Pas 1] c = Inr c'"
      "waiting (st c') = waiting (st c)" "step (Pas 1) c' = Inl Blocked"
    by blast
  show "\<exists>c c'. run (arrive 1 @ pass_through 0) (initial garbage) = Inr c \<and>
      pas c 1 = W_suspended \<and> Passenger 1 \<notin> train_arrived (st c) \<and>
      lock (st c) = None \<and> seats_available (st c) = 0 \<and>
      run [Pas 1, Pas 1, Pas 1] c = Inr c' \<and>
      waiting (st c') = waiting (st c) \<and> step (Pas 1) c' = Inl Blocked"
    by (intro exI [of _ c] exI [of _ c'] conjI) (fact r h a)+
next
  obtain c where r: "run (arrive 1 @ announce 2) (initial garbage) = Inr c"
    and h: "pas c 1 = W_suspended" "Passenger 1 \<notin> train_arrived (st c)"
      "lock (st c) = None" "INT_MIN < waiting (st c)" "seats_available (st c) \<noteq> 0"
      "INT_MIN < seats_available (st c)"
    by (simp add: run_simps)
  from wait_for_train_claims_one_seat [of c 1] h
  obtain c' where a: "run [Pas 1, Pas 1, Pas 1, Pas 1, Pas 1] c = Inr c'"
      "seats_available (st c') = seats_available (st c) - 1"
      "waiting (st c') = waiting (st c) - 1"
    by blast
  show "\<exists>c c'. run (arrive 1 @ announce 2) (initial garbage) = Inr c \<and>
      pas c 1 = W_suspended \<and> Passenger 1 \<notin> train_arrived (st c) \<and>
      lock (st c) = None \<and> INT_MIN < waiting (st c) \<and> seats_available (st c) \<noteq> 0 \<and>
      INT_MIN < seats_available (st c) \<and>
      run [Pas 1, Pas 1, Pas 1, Pas 1, Pas 1] c = Inr c' \<and>
      seats_available (st c') = seats_available (st c) - 1 \<and>
      waiting (st c') = waiting (st c) - 1"
    by (intro exI [of _ c] exI [of _ c'] conjI) (fact r h a)+
qed

section \<open>\<open>station_on_board\<close>\<close>

text \<open>
  C9. A call of \<open>station_on_board\<close> by passenger \<open>t\<close> that gets the mutex (with
  \<open>boarding\<close> below \<open>INT_MAX\<close>) increments \<open>boarding\<close> by one and then stands before
  the broadcast of line 89 exactly when the incremented value equals \<open>people_to_sit\<close>;
  otherwise it stands before the unlock of line 92. When the values are equal the call
  runs through line 89 and leaves no thread suspended on \<open>all_boarded\<close>. When they
  differ, and so when the incremented value is greater than \<open>people_to_sit\<close>, line 89
  is not executed and \<open>all_boarded\<close> is left as it was.
\<close>

theorem on_board_broadcast_iff_quota_met:
  assumes "pas c t = B_lock" and "lock (st c) = None" and "boarding (st c) < INT_MAX"
  shows "(\<exists>c2. run [Pas t, Pas t, Pas t] c = Inr c2 \<and>
            boarding (st c2) = boarding (st c) + 1 \<and>
            people_to_sit (st c2) = people_to_sit (st c) \<and>
            (pas c2 t = B_broadcast \<longleftrightarrow> boarding (st c) + 1 = people_to_sit (st c)) \<and>
            (pas c2 t = B_unlock \<longleftrightarrow> boarding (st c) + 1 \<noteq> people_to_sit (st c))) \<and>
         (boarding (st c) + 1 = people_to_sit (st c) \<longrightarrow>
            map (\<lambda>d. pas d t) (visited [Pas t, Pas t, Pas t, Pas t, Pas t] c) =
              [B_lock, B_inc_boarding, B_test, B_broadcast, B_unlock, P_idle] \<and>
            (\<exists>c'. run [Pas t, Pas t, Pas t, Pas t, Pas t] c = Inr c' \<and>
               boarding (st c') = boarding (st c) + 1 \<and> all_boarded (st c') = {})) \<and>
         (boarding (st c) + 1 \<noteq> people_to_sit (st c) \<longrightarrow>
            map (\<lambda>d. pas d t) (visited [Pas t, Pas t, Pas t, Pas t] c) =
              [B_lock, B_inc_boarding, B_test, B_unlock, P_idle] \<and>
            (\<exists>c'. run [Pas t, Pas t, Pas t, Pas t] c = Inr c' \<and>
               boarding (st c') = boarding (st c) + 1 \<and>
               all_boarded (st c') = all_boarded (st c))) \<and>
         (people_to_sit (st c) < boarding (st c) + 1 \<longrightarrow>
            map (\<lambda>d. pas d t) (visited [Pas t, Pas t, Pas t, Pas t] c) =
              [B_lock, B_inc_boarding, B_test, B_unlock, P_idle] \<and>
            (\<exists>c'. run [Pas t, Pas t, Pas t, Pas t] c = Inr c' \<and>
               boarding (st c') = boarding (st c) + 1 \<and>
               all_boarded (st c') = all_boarded (st c)))"
  using assms by simp

text \<open>
  At concrete executions: passenger 1 boards the first train and meets the quota 1,
  which wakes the controller; passenger 2 boards after it, takes \<open>boarding\<close> to 2,
  past the quota, and broadcasts nothing.
\<close>

theorem on_board_broadcast_iff_quota_met_witness:
  "(\<exists>c c'. run (first_train @ [Board 1]) (initial garbage) = Inr c \<and>
      pas c 1 = B_lock \<and> lock (st c) = None \<and> boarding (st c) < INT_MAX \<and>
      boarding (st c) + 1 = people_to_sit (st c) \<and> all_boarded (st c) = {Controller} \<and>
      map (\<lambda>d. pas d 1) (visited [Pas 1, Pas 1, Pas 1, Pas 1, Pas 1] c) =
        [B_lock, B_inc_boarding, B_test, B_broadcast, B_unlock, P_idle] \<and>
      run [Pas 1, Pas 1, Pas 1, Pas 1, Pas 1] c = Inr c' \<and>
      boarding (st c') = boarding (st c) + 1 \<and> all_boarded (st c') = {}) \<and>
   (\<exists>c c'. run (first_train @ board_last 1 @ [Board 2])
        (initial garbage) = Inr c \<and>
      pas c 2 = B_lock \<and> lock (st c) = None \<and> boarding (st c) < INT_MAX \<and>
      people_to_sit (st c) < boarding (st c) + 1 \<and>
      map (\<lambda>d. pas d 2) (visited [Pas 2, Pas 2, Pas 2, Pas 2] c) =
        [B_lock, B_inc_boarding, B_test, B_unlock, P_idle] \<and>
      run [Pas 2, Pas 2, Pas 2, Pas 2] c = Inr c' \<and>
      boarding (st c') = boarding (st c) + 1 \<and> all_boarded (st c') = all_boarded (st c))"
proof (intro conjI)
  obtain c where r: "run (first_train @ [Board 1]) (initial garbage) = Inr c"
    and h: "pas c 1 = B_lock" "lock (st c) = None" "boarding (st c) < INT_MAX"
    and e: "boarding (st c) + 1 = people_to_sit (st c)"
    and s: "all_boarded (st c) = {Controller}"
    by (simp add: run_simps)
  note inst = on_board_broadcast_iff_quota_met [OF h]
  from inst e
  have path: "map (\<lambda>d. pas d 1) (visited [Pas 1, Pas 1, Pas 1, Pas 1, Pas 1] c) =
        [B_lock, B_inc_boarding, B_test, B_broadcast, B_unlock, P_idle]"
    by blast
  from inst e
  obtain c' where a: "run [Pas 1, Pas 1, Pas 1, Pas 1, Pas 1] c = Inr c'"
      "boarding (st c') = boarding (st c) + 1" "all_boarded (st c') = {}"
    by blast
  show "\<exists>c c'. run (first_train @ [Board 1]) (initial garbage) = Inr c \<and>
      pas c 1 = B_lock \<and> lock (st c) = None \<and> boarding (st c) < INT_MAX \<and>
      boarding (st c) + 1 = people_to_sit (st c) \<and> all_boarded (st c) = {Controller} \<and>
      map (\<lambda>d. pas d 1) (visited [Pas 1, Pas 1, Pas 1, Pas 1, Pas 1] c) =
        [B_lock, B_inc_boarding, B_test, B_broadcast, B_unlock, P_idle] \<and>
      run [Pas 1, Pas 1, Pas 1, Pas 1, Pas 1] c = Inr c' \<and>
      boarding (st c') = boarding (st c) + 1 \<and> all_boarded (st c') = {}"
    by (intro exI [of _ c] exI [of _ c'] conjI) (fact r h e s path a)+
next
  obtain c where r: "run (first_train @ board_last 1 @ [Board 2])
        (initial garbage) = Inr c"
    and h: "pas c 2 = B_lock" "lock (st c) = None" "boarding (st c) < INT_MAX"
    and e: "people_to_sit (st c) < boarding (st c) + 1"
    by (simp add: run_simps)
  note inst = on_board_broadcast_iff_quota_met [OF h]
  from inst e
  have path: "map (\<lambda>d. pas d 2) (visited [Pas 2, Pas 2, Pas 2, Pas 2] c) =
        [B_lock, B_inc_boarding, B_test, B_unlock, P_idle]"
    by blast
  from inst e
  obtain c' where a: "run [Pas 2, Pas 2, Pas 2, Pas 2] c = Inr c'"
      "boarding (st c') = boarding (st c) + 1" "all_boarded (st c') = all_boarded (st c)"
    by blast
  show "\<exists>c c'. run (first_train @ board_last 1 @ [Board 2])
        (initial garbage) = Inr c \<and>
      pas c 2 = B_lock \<and> lock (st c) = None \<and> boarding (st c) < INT_MAX \<and>
      people_to_sit (st c) < boarding (st c) + 1 \<and>
      map (\<lambda>d. pas d 2) (visited [Pas 2, Pas 2, Pas 2, Pas 2] c) =
        [B_lock, B_inc_boarding, B_test, B_unlock, P_idle] \<and>
      run [Pas 2, Pas 2, Pas 2, Pas 2] c = Inr c' \<and>
      boarding (st c') = boarding (st c) + 1 \<and> all_boarded (st c') = all_boarded (st c)"
    by (intro exI [of _ c] exI [of _ c'] conjI) (fact r h e path a)+
qed

text \<open>
  C10. No statement of \<open>station_on_board\<close> changes \<open>waiting\<close>, \<open>seats_available\<close> or
  \<open>people_to_sit\<close>; and in a whole call, from taking the mutex to the return, the
  three have their old values in every configuration passed, while \<open>boarding\<close> ends one
  higher. (The call takes four statements or five; scheduling the passenger a fifth time
  after a call of four does nothing, since it is outside any call then.)
\<close>

theorem on_board_changes_boarding_only:
  "(in_on_board (pas c t) \<and> step (Pas t) c = Inr c' \<longrightarrow>
      waiting (st c') = waiting (st c) \<and>
      seats_available (st c') = seats_available (st c) \<and>
      people_to_sit (st c') = people_to_sit (st c)) \<and>
   (pas c t = B_lock \<and> lock (st c) = None \<and> boarding (st c) < INT_MAX \<longrightarrow>
      list_all (\<lambda>d. waiting (st d) = waiting (st c) \<and>
                    seats_available (st d) = seats_available (st c) \<and>
                    people_to_sit (st d) = people_to_sit (st c))
        (visited [Pas t, Pas t, Pas t, Pas t, Pas t] c) \<and>
      pas (last (visited [Pas t, Pas t, Pas t, Pas t, Pas t] c)) t = P_idle \<and>
      boarding (st (last (visited [Pas t, Pas t, Pas t, Pas t, Pas t] c))) =
        boarding (st c) + 1)"
proof -
  have one: "waiting (st c') = waiting (st c) \<and>
      seats_available (st c') = seats_available (st c) \<and>
      people_to_sit (st c') = people_to_sit (st c)"
    if "in_on_board (pas c t)" and "step (Pas t) c = Inr c'"
    using that by (cases "pas c t") (auto split: if_splits)
  have whole: "list_all (\<lambda>d. waiting (st d) = waiting (st c) \<and>
                    seats_available (st d) = seats_available (st c) \<and>
                    people_to_sit (st d) = people_to_sit (st c))
        (visited [Pas t, Pas t, Pas t, Pas t, Pas t] c) \<and>
      pas (last (visited [Pas t, Pas t, Pas t, Pas t, Pas t] c)) t = P_idle \<and>
      boarding (st (last (visited [Pas t, Pas t, Pas t, Pas t, Pas t] c))) =
        boarding (st c) + 1"
    if "pas c t = B_lock" and "lock (st c) = None" and "boarding (st c) < INT_MAX"
    using that by simp
  show ?thesis
    using one whole by blast
qed

text \<open>At a concrete execution: passenger 1 boards the first train.\<close>

theorem on_board_changes_boarding_only_witness:
  "\<exists>c c'. run (first_train @ [Board 1]) (initial garbage) = Inr c \<and>
     pas c 1 = B_lock \<and> lock (st c) = None \<and> boarding (st c) < INT_MAX \<and>
     in_on_board (pas c 1) \<and> step (Pas 1) c = Inr c' \<and>
     waiting (st c') = waiting (st c) \<and>
     seats_available (st c') = seats_available (st c) \<and>
     people_to_sit (st c') = people_to_sit (st c) \<and>
     pas (last (visited [Pas 1, Pas 1, Pas 1, Pas 1, Pas 1] c)) 1 = P_idle \<and>
     boarding (st (last (visited [Pas 1, Pas 1, Pas 1, Pas 1, Pas 1] c))) =
       boarding (st c) + 1"
proof -
  obtain c c' where r: "run (first_train @ [Board 1]) (initial garbage) = Inr c"
    and h: "pas c 1 = B_lock" "lock (st c) = None" "boarding (st c) < INT_MAX"
    and i: "in_on_board (pas c 1)" "step (Pas 1) c = Inr c'"
    by (simp add: run_simps)
  note inst = on_board_changes_boarding_only [of c 1 c']
  from inst i
  have a: "waiting (st c') = waiting (st c)"
      "seats_available (st c') = seats_available (st c)"
      "people_to_sit (st c') = people_to_sit (st c)"
    by blast+
  from inst h
  have b: "pas (last (visited [Pas 1, Pas 1, Pas 1, Pas 1, Pas 1] c)) 1 = P_idle"
      "boarding (st (last (visited [Pas 1, Pas 1, Pas 1, Pas 1, Pas 1] c))) =
         boarding (st c) + 1"
    by blast+
  show ?thesis
    by (intro exI [of _ c] exI [of _ c'] conjI) (fact r h i a b)+
qed

section \<open>Passengers that arrive while the train is in the station\<close>

text \<open>
  \<open>station_load_train\<close> fixes the quota \<open>people_to_sit\<close> from the passengers waiting
  when it is called, but offers all \<open>count\<close> seats: a passenger that arrives while the
  controller is suspended finds \<open>seats_available > 0\<close> and takes a seat the quota does
  not count. Its \<open>station_on_board\<close> then comes on top of the quota, before or after
  the train has left. The three theorems of this section run such executions; every
  passenger in them calls \<open>station_wait_for_train\<close> and then \<open>station_on_board\<close>,
  once each, and no wake-up is spurious.
\<close>

text \<open>
  C1, evaluated. In \<open>crowded\<close> the call \<open>station_load_train(2)\<close> is made with one
  passenger waiting, so the quota is \<open>min(1, 2) = 1\<close>, and two passengers complete
  \<open>station_on_board\<close> before it returns. In \<open>empty_train\<close> the second call,
  \<open>station_load_train(1)\<close>, is made with passenger 3 waiting and \<open>boarding\<close> still 1
  from the late boarder: its quota is \<open>min(1, 1) = 1\<close>, and it returns with no
  \<open>station_on_board\<close> completed in between, passenger 3 still suspended.
\<close>

theorem load_train_boarded_differs_from_quota:
  "history crowded (initial s0) =
     [Called 2, Quota 1, Seated 1, Seated 2, Boarded 1, Boarded 2, Returned] \<and>
   (\<exists>c. run (arrive 1) (initial s0) = Inr c \<and> waiting (st c) = 1 \<and> boarding (st c) = 0) \<and>
   history empty_train (initial s0) =
     [Called 2, Quota 1, Seated 1, Seated 2, Boarded 1, Returned, Boarded 2,
      Called 1, Quota 1, Returned] \<and>
   (\<exists>c. run (late_boarder @ arrive 3) (initial s0) = Inr c \<and> ctl c = C_idle \<and>
      waiting (st c) = 1 \<and> boarding (st c) = 1) \<and>
   (\<exists>c. run empty_train (initial s0) = Inr c \<and> ctl c = C_idle \<and>
      pas c 3 = W_suspended \<and> waiting (st c) = 1)"
  by (simp add: run_simps)

text \<open>
  C2, evaluated. Two configurations in which no thread holds the mutex and \<open>boarding\<close>
  is above \<open>people_to_sit\<close>: both passengers have boarded and the controller, woken,
  has not run yet (2 above 1); the train has left and passenger 2 has boarded after it
  (1 above 0).
\<close>

theorem boarding_above_quota:
  "(\<exists>c. run (first_train @ board_last 1 @ board_quiet 2) (initial s0) = Inr c \<and>
      lock (st c) = None \<and> ctl c = L_suspended \<and>
      boarding (st c) = 2 \<and> people_to_sit (st c) = 1 \<and>
      \<not> boarding (st c) \<le> people_to_sit (st c)) \<and>
   (\<exists>c. run late_boarder (initial s0) = Inr c \<and>
      lock (st c) = None \<and> ctl c = C_idle \<and>
      boarding (st c) = 1 \<and> people_to_sit (st c) = 0 \<and>
      \<not> boarding (st c) \<le> people_to_sit (st c))"
  by (simp add: run_simps)

text \<open>
  C3, evaluated. In \<open>late_boarder\<close> passenger 2 completes \<open>station_on_board\<close> after
  \<open>station_load_train\<close> has returned: the controller is outside any call,
  \<open>seats_available\<close> and \<open>people_to_sit\<close> are 0 and \<open>boarding\<close> is 1, and the next call
  of \<open>station_load_train\<close> begins with \<open>boarding = 1\<close>.
\<close>

theorem boarding_not_zero_between_trains:
  "history late_boarder (initial s0) =
     [Called 2, Quota 1, Seated 1, Seated 2, Boarded 1, Returned, Boarded 2] \<and>
   (\<exists>c. run late_boarder (initial s0) = Inr c \<and> ctl c = C_idle \<and> lock (st c) = None \<and>
      seats_available (st c) = 0 \<and> people_to_sit (st c) = 0 \<and> boarding (st c) = 1) \<and>
   (\<exists>c. run (late_boarder @ [Load 1, Ctl]) (initial s0) = Inr c \<and>
      ctl c = L_set_seats 1 \<and> boarding (st c) = 1)"
  by (simp add: run_simps)

end
